theory Spec2Isabelle
  imports Complex_Main
begin

section \<open>Values: QVariant, QJsonValue and byte arrays\<close>

text \<open>
  The services exchange data as \<^verbatim>\<open>QVariant\<close> trees and persist them as JSON.
  \<open>qjson\<close> is a \<^verbatim>\<open>QJsonValue\<close>; \<open>qvariant\<close> is the part of \<^verbatim>\<open>QVariant\<close> the
  services use: the invalid variant \<^verbatim>\<open>QVariant()\<close>, and the variants that
  \<^verbatim>\<open>QJsonValue::toVariant\<close> produces (null, bool, number, string, list, map).
  A \<^verbatim>\<open>QVariantMap\<close> or \<^verbatim>\<open>QJsonObject\<close> is an association list read through its
  first binding of a key.  Doubles are only stored and compared, never computed
  with, and are carried as \<open>real\<close>.
\<close>

datatype qjson =
    JNull
  | JBool bool
  | JDouble real
  | JString string
  | JArray "qjson list"
  | JObject "(string \<times> qjson) list"

datatype qvariant =
    VInvalid
  | VNull
  | VBool bool
  | VDouble real
  | VString string
  | VList "qvariant list"
  | VMap "(string \<times> qvariant) list"

type_synonym qvariantmap = "(string \<times> qvariant) list"
type_synonym qvariantlist = "qvariant list"
type_synonym qjsonobject = "(string \<times> qjson) list"

text \<open>\<^verbatim>\<open>m[k] = v\<close>: replaces the binding of \<open>k\<close>, or adds one.\<close>

fun qmap_insert :: "string \<Rightarrow> 'v \<Rightarrow> (string \<times> 'v) list \<Rightarrow> (string \<times> 'v) list" where
  "qmap_insert k v [] = [(k, v)]"
| "qmap_insert k v ((k', v') # m) =
     (if k = k' then (k, v) # m else (k', v') # qmap_insert k v m)"

text \<open>The value read by \<^verbatim>\<open>m[k]\<close>: a default-constructed \<^verbatim>\<open>QVariant\<close> when \<open>k\<close> is absent.\<close>

definition qmap_value :: "qvariantmap \<Rightarrow> string \<Rightarrow> qvariant" where
  "qmap_value m k = (case map_of m k of None \<Rightarrow> VInvalid | Some v \<Rightarrow> v)"

text \<open>
  The map left behind by the non-const \<^verbatim>\<open>QMap::operator[]\<close>: reading an absent key
  through it inserts a default-constructed value under that key.
\<close>

definition qmap_subscript :: "qvariantmap \<Rightarrow> string \<Rightarrow> qvariantmap" where
  "qmap_subscript m k = (case map_of m k of None \<Rightarrow> qmap_insert k VInvalid m | Some v \<Rightarrow> m)"

text \<open>\<^verbatim>\<open>QJsonObject::operator[]\<close> read: \<^verbatim>\<open>Null\<close>/\<^verbatim>\<open>Undefined\<close> when absent.\<close>

definition qjson_value :: "qjsonobject \<Rightarrow> string \<Rightarrow> qjson" where
  "qjson_value obj k = (case map_of obj k of None \<Rightarrow> JNull | Some v \<Rightarrow> v)"

text \<open>
  The accessors of \<^verbatim>\<open>QJsonValue\<close> do not convert: each returns its default
  (\<open>false\<close>, the empty string, \<open>0\<close>) on a value of another type.
\<close>

fun qjson_toBool :: "qjson \<Rightarrow> bool" where
  "qjson_toBool (JBool b) = b"
| "qjson_toBool _ = False"

fun qjson_toString :: "qjson \<Rightarrow> string" where
  "qjson_toString (JString s) = s"
| "qjson_toString _ = []"

fun qjson_toDouble :: "qjson \<Rightarrow> real" where
  "qjson_toDouble (JDouble d) = d"
| "qjson_toDouble _ = 0"

text \<open>
  The accessors of \<^verbatim>\<open>QVariant\<close> convert.  Two conversions are Qt library code the
  repository only calls: the text of a number and the truth value of a string.
  They are parameters of the model.
\<close>

record qt_convert =
  number_text :: "real \<Rightarrow> string"
  string_truth :: "string \<Rightarrow> bool"

fun toBool :: "qt_convert \<Rightarrow> qvariant \<Rightarrow> bool" where
  "toBool qt (VBool b) = b"
| "toBool qt (VDouble d) = (d \<noteq> 0)"
| "toBool qt (VString s) = string_truth qt s"
| "toBool qt _ = False"

fun toString :: "qt_convert \<Rightarrow> qvariant \<Rightarrow> string" where
  "toString qt (VString s) = s"
| "toString qt (VBool b) = (if b then ''true'' else ''false'')"
| "toString qt (VDouble d) = number_text qt d"
| "toString qt _ = []"

fun toList :: "qvariant \<Rightarrow> qvariantlist" where
  "toList (VList xs) = xs"
| "toList _ = []"

fun toMap :: "qvariant \<Rightarrow> qvariantmap" where
  "toMap (VMap m) = m"
| "toMap _ = []"

text \<open>
  \<^verbatim>\<open>QJsonValue::fromVariant\<close> and \<^verbatim>\<open>QJsonValue::toVariant\<close>.  An invalid variant has
  no JSON form and is written as \<open>null\<close>.
\<close>

primrec fromVariant_value :: "qvariant \<Rightarrow> qjson" where
  "fromVariant_value VInvalid = JNull"
| "fromVariant_value VNull = JNull"
| "fromVariant_value (VBool b) = JBool b"
| "fromVariant_value (VDouble d) = JDouble d"
| "fromVariant_value (VString s) = JString s"
| "fromVariant_value (VList xs) = JArray (map fromVariant_value xs)"
| "fromVariant_value (VMap m) = JObject (map (map_prod id fromVariant_value) m)"

primrec toVariant_value :: "qjson \<Rightarrow> qvariant" where
  "toVariant_value JNull = VNull"
| "toVariant_value (JBool b) = VBool b"
| "toVariant_value (JDouble d) = VDouble d"
| "toVariant_value (JString s) = VString s"
| "toVariant_value (JArray xs) = VList (map toVariant_value xs)"
| "toVariant_value (JObject m) = VMap (map (map_prod id toVariant_value) m)"

text \<open>
  A \<^verbatim>\<open>QJsonDocument\<close> is null (\<open>None\<close>) or holds an array or an object.
  \<^verbatim>\<open>QJsonDocument::fromVariant\<close> gives the null document for every variant that is
  neither a list nor a map.
\<close>

type_synonym qjsondocument = "qjson option"

fun fromVariant :: "qvariant \<Rightarrow> qjsondocument" where
  "fromVariant (VList xs) = Some (fromVariant_value (VList xs))"
| "fromVariant (VMap m) = Some (fromVariant_value (VMap m))"
| "fromVariant _ = None"

fun toVariant :: "qjsondocument \<Rightarrow> qvariant" where
  "toVariant None = VInvalid"
| "toVariant (Some j) = toVariant_value j"

text \<open>\<^verbatim>\<open>QJsonDocument::object()\<close>: the empty object unless the document holds an object.\<close>

fun object :: "qjsondocument \<Rightarrow> qjsonobject" where
  "object (Some (JObject m)) = m"
| "object _ = []"

text \<open>
  A \<^verbatim>\<open>QByteArray\<close> is modelled up to JSON parsing: it is empty, or the JSON text
  of a value, or bytes that are no JSON text.  \<^verbatim>\<open>toJson\<close> of the null document is
  the empty byte array; \<^verbatim>\<open>fromJson\<close> gives the null document unless the text is
  an array or an object.
\<close>

datatype qbytearray = Empty_Bytes | Malformed_Bytes | Json_Text qjson

fun toJson :: "qjsondocument \<Rightarrow> qbytearray" where
  "toJson None = Empty_Bytes"
| "toJson (Some j) = Json_Text j"

fun fromJson :: "qbytearray \<Rightarrow> qjsondocument" where
  "fromJson (Json_Text (JArray xs)) = Some (JArray xs)"
| "fromJson (Json_Text (JObject m)) = Some (JObject m)"
| "fromJson _ = None"

section \<open>The file system seen by CacheManager\<close>

text \<open>
  \<open>files\<close> maps a path to the content of the file there; \<open>open_read_ok\<close> and
  \<open>open_write_ok\<close> say whether \<^verbatim>\<open>QFile::open\<close> succeeds on a path in the given mode.
  \<open>write_result\<close> says how much of the data \<^verbatim>\<open>QFile::write\<close> followed by
  \<^verbatim>\<open>close\<close> puts into the file at a path: all of it, a part of it (a short write,
  or a process stopped while it writes), or none (a full disk, an I/O error).
\<close>

datatype write_outcome = Write_Complete | Write_Short | Write_Failed

record filesystem =
  files :: "string \<Rightarrow> qbytearray option"
  open_read_ok :: "string \<Rightarrow> bool"
  open_write_ok :: "string \<Rightarrow> bool"
  write_result :: "string \<Rightarrow> write_outcome"

definition put_file :: "filesystem \<Rightarrow> string \<Rightarrow> qbytearray \<Rightarrow> filesystem" where
  "put_file fs path bytes = fs\<lparr>files := (files fs)(path \<mapsto> bytes)\<rparr>"

text \<open>
  The content of a file that was just truncated, after \<open>data\<close> is written to it
  with the given outcome.  A part of a JSON text is no JSON text; a part of
  nothing is nothing.
\<close>

fun write_bytes :: "write_outcome \<Rightarrow> qbytearray \<Rightarrow> qbytearray" where
  "write_bytes Write_Complete data = data"
| "write_bytes Write_Failed data = Empty_Bytes"
| "write_bytes Write_Short Empty_Bytes = Empty_Bytes"
| "write_bytes Write_Short data = Malformed_Bytes"

section \<open>CacheManager\<close>

record cachemanager =
  m_cacheDir :: string
  m_usersCacheFile :: string
  m_logsCacheFile :: string

datatype cache_signal = cacheUpdated | unsyncedLogsChanged

text \<open>The constructor; its argument is \<^verbatim>\<open>QStandardPaths::AppDataLocation\<close>.\<close>

definition CacheManager :: "string \<Rightarrow> cachemanager" where
  "CacheManager appDataLocation =
     (let dir = appDataLocation @ ''/cache'' in
      \<lparr>m_cacheDir = dir,
       m_usersCacheFile = dir @ ''/users_cache.json'',
       m_logsCacheFile = dir @ ''/logs_cache.json''\<rparr>)"

text \<open>
  \<^verbatim>\<open>saveToFile\<close> opens the target itself with \<^verbatim>\<open>QIODevice::WriteOnly\<close>, which creates
  or truncates it, writes the document and closes.  It returns \<open>false\<close> when the
  open fails.  It does not look at what \<^verbatim>\<open>write\<close> returns: once the file is open
  it returns \<open>true\<close>, whatever the write has left in the file.
\<close>

definition saveToFile :: "filesystem \<Rightarrow> string \<Rightarrow> qvariant \<Rightarrow> filesystem \<times> bool" where
  "saveToFile fs filePath data =
     (if \<not> open_write_ok fs filePath then (fs, False)
      else
        let opened = put_file fs filePath Empty_Bytes;
            doc = fromVariant data;
            closed = put_file opened filePath (write_bytes (write_result fs filePath) (toJson doc))
        in (closed, True))"

definition loadFromFile :: "filesystem \<Rightarrow> string \<Rightarrow> qvariant" where
  "loadFromFile fs filePath =
     (case files fs filePath of
        None \<Rightarrow> VInvalid
      | Some data \<Rightarrow>
          if \<not> open_read_ok fs filePath then VInvalid
          else toVariant (fromJson data))"

text \<open>
  The operations take the current time as text (\<open>now\<close>, the value of
  \<^verbatim>\<open>QDateTime::currentDateTime().toString(Qt::ISODate)\<close>) and return the file
  system they leave with the signals they emit.  All of them return \<^verbatim>\<open>void\<close>
  or a value read from the files.  The source's variable \<^verbatim>\<open>log\<close> is \<open>logMap\<close> here.
\<close>

definition cacheUsers ::
  "cachemanager \<Rightarrow> string \<Rightarrow> filesystem \<Rightarrow> qvariantlist \<Rightarrow> filesystem \<times> cache_signal list" where
  "cacheUsers cm now fs users =
     (let cacheData = qmap_insert ''users'' (VList users)
                        (qmap_insert ''timestamp'' (VString now) []);
          (fs', ok) = saveToFile fs (m_usersCacheFile cm) (VMap cacheData)
      in if ok then (fs', [cacheUpdated]) else (fs', []))"

definition getCachedUsers :: "cachemanager \<Rightarrow> filesystem \<Rightarrow> qvariantlist" where
  "getCachedUsers cm fs =
     (let cacheData = toMap (loadFromFile fs (m_usersCacheFile cm))
      in toList (qmap_value cacheData ''users''))"

definition getCachedLogs :: "cachemanager \<Rightarrow> filesystem \<Rightarrow> qvariantlist" where
  "getCachedLogs cm fs = toList (loadFromFile fs (m_logsCacheFile cm))"

definition cacheLog ::
  "cachemanager \<Rightarrow> string \<Rightarrow> filesystem \<Rightarrow> qvariantmap \<Rightarrow> filesystem \<times> cache_signal list" where
  "cacheLog cm now fs logMap =
     (let logs = getCachedLogs cm fs;
          logWithSync = qmap_insert ''cached_at'' (VString now)
                          (qmap_insert ''synced'' (VBool False) logMap);
          logs = logs @ [VMap logWithSync];
          (fs', ok) = saveToFile fs (m_logsCacheFile cm) (VList logs)
      in if ok then (fs', [unsyncedLogsChanged]) else (fs', []))"

text \<open>
  The loop of \<^verbatim>\<open>getUnsyncedLogs\<close> and \<^verbatim>\<open>clearSyncedLogs\<close>.  Each entry is converted
  with \<^verbatim>\<open>toMap\<close> and its \<^verbatim>\<open>synced\<close> field is read through the non-const
  \<^verbatim>\<open>operator[]\<close>; the map appended is the one that read leaves.
\<close>

fun unsynced_loop :: "qt_convert \<Rightarrow> qvariantlist \<Rightarrow> qvariantlist \<Rightarrow> qvariantlist" where
  "unsynced_loop qt [] unsyncedLogs = unsyncedLogs"
| "unsynced_loop qt (logVar # rest) unsyncedLogs =
     (let logMap = toMap logVar in
      if \<not> toBool qt (qmap_value logMap ''synced'')
      then unsynced_loop qt rest (unsyncedLogs @ [VMap (qmap_subscript logMap ''synced'')])
      else unsynced_loop qt rest unsyncedLogs)"


text \<open>
  The loop of \<^verbatim>\<open>markLogSynced\<close>: it rewrites the first entry whose \<^verbatim>\<open>id\<close>, as text,
  equals \<open>logId\<close>, and stops there.
\<close>

fun mark_loop :: "qt_convert \<Rightarrow> string \<Rightarrow> string \<Rightarrow> qvariantlist \<Rightarrow> qvariantlist" where
  "mark_loop qt now logId [] = []"
| "mark_loop qt now logId (entry # rest) =
     (let logMap = toMap entry in
      if toString qt (qmap_value logMap ''id'') = logId
      then VMap (qmap_insert ''synced_at'' (VString now)
                  (qmap_insert ''synced'' (VBool True) (qmap_subscript logMap ''id''))) # rest
      else entry # mark_loop qt now logId rest)"

definition markLogSynced ::
  "qt_convert \<Rightarrow> cachemanager \<Rightarrow> string \<Rightarrow> filesystem \<Rightarrow> string \<Rightarrow> filesystem \<times> cache_signal list" where
  "markLogSynced qt cm now fs logId =
     (let logs = mark_loop qt now logId (getCachedLogs cm fs);
          (fs', ok) = saveToFile fs (m_logsCacheFile cm) (VList logs)
      in if ok then (fs', [unsyncedLogsChanged]) else (fs', []))"

definition clearSyncedLogs ::
  "qt_convert \<Rightarrow> cachemanager \<Rightarrow> filesystem \<Rightarrow> filesystem \<times> cache_signal list" where
  "clearSyncedLogs qt cm fs =
     (let unsyncedLogs = unsynced_loop qt (getCachedLogs cm fs) [];
          (fs', ok) = saveToFile fs (m_logsCacheFile cm) (VList unsyncedLogs)
      in if ok then (fs', [unsyncedLogsChanged]) else (fs', []))"

text \<open>
  The sync state of a stored entry is its \<^verbatim>\<open>synced\<close> field as the loops above read
  it: \<open>synced\<close> holds of a Synced entry, and every other entry is Pending.  The
  source has no third state.
\<close>

definition synced :: "qt_convert \<Rightarrow> qvariant \<Rightarrow> bool" where
  "synced qt e = toBool qt (qmap_value (toMap e) ''synced'')"

text \<open>The text of the \<^verbatim>\<open>id\<close> field that \<^verbatim>\<open>markLogSynced\<close> compares with its argument.\<close>

definition log_id :: "qt_convert \<Rightarrow> qvariant \<Rightarrow> string" where
  "log_id qt e = toString qt (qmap_value (toMap e) ''id'')"

text \<open>
  A stored attendance event, as \<^verbatim>\<open>cacheLog\<close> writes it: a map that has a
  \<^verbatim>\<open>synced\<close> field.
\<close>

fun is_event :: "qvariant \<Rightarrow> bool" where
  "is_event (VMap m) = (map_of m ''synced'' \<noteq> None)"
| "is_event _ = False"

text \<open>The mutating operations on the log, as one step function.\<close>

datatype cache_op =
    CacheLog qvariantmap string
  | MarkLogSynced string string
  | ClearSyncedLogs

fun apply_op :: "qt_convert \<Rightarrow> cachemanager \<Rightarrow> filesystem \<Rightarrow> cache_op \<Rightarrow> filesystem" where
  "apply_op qt cm fs (CacheLog logMap now) = fst (cacheLog cm now fs logMap)"
| "apply_op qt cm fs (MarkLogSynced logId now) = fst (markLogSynced qt cm now fs logId)"
| "apply_op qt cm fs ClearSyncedLogs = fst (clearSyncedLogs qt cm fs)"

section \<open>FaceRecognitionService: the recognize reply\<close>

definition parseRecognizeResponse :: "qbytearray \<Rightarrow> qvariantmap" where
  "parseRecognizeResponse responseData =
     (let doc = fromJson responseData in
      if doc = None
      then qmap_insert ''error'' (VString ''Invalid JSON response'')
             (qmap_insert ''success'' (VBool False) [])
      else
        let obj = object doc in
        qmap_insert ''threshold'' (VDouble (qjson_toDouble (qjson_value obj ''threshold'')))
          (qmap_insert ''distance'' (VDouble (qjson_toDouble (qjson_value obj ''distance'')))
            (qmap_insert ''name'' (VString (qjson_toString (qjson_value obj ''name'')))
              (qmap_insert ''user_id'' (VString (qjson_toString (qjson_value obj ''user_id'')))
                (qmap_insert ''matched'' (VBool (qjson_toBool (qjson_value obj ''matched'')))
                  (qmap_insert ''success'' (VBool True) []))))))"

text \<open>
  \<^verbatim>\<open>QNetworkReply::NetworkError\<close>: the code compares it with \<^verbatim>\<open>NoError\<close> only.
  Qt reports a transport failure (refused connection, unknown host, timeout) and
  an HTTP status outside 2xx (not found, internal server error) through this
  same value.
\<close>

datatype network_error =
    NoError
  | ConnectionRefusedError
  | HostNotFoundError
  | TimeoutError
  | ContentNotFoundError
  | InternalServerError
  | OtherNetworkError nat

record qnetworkreply =
  error :: network_error
  readAll :: qbytearray

datatype recognition_signal =
    faceRecognized string string
  | faceRecognitionFailed

text \<open>
  The slot gets the reply from \<^verbatim>\<open>sender()\<close>, \<open>None\<close> when that is no
  \<^verbatim>\<open>QNetworkReply\<close>, and returns nothing: what it does is the signals it emits.
\<close>

fun onRecognizeReplyFinished :: "qt_convert \<Rightarrow> qnetworkreply option \<Rightarrow> recognition_signal list" where
  "onRecognizeReplyFinished qt None = []"
| "onRecognizeReplyFinished qt (Some reply) =
     (if error reply = NoError then
        (let result = parseRecognizeResponse (readAll reply) in
         if toBool qt (qmap_value result ''matched'')
         then [faceRecognized (toString qt (qmap_value result ''user_id''))
                              (toString qt (qmap_value result ''name''))]
         else [faceRecognitionFailed])
      else [faceRecognitionFailed])"

section \<open>CameraManager\<close>

text \<open>
  The three pointers are modelled by what they point to: the device of the
  \<^verbatim>\<open>QCamera\<close>, and whether the session and the image capture are allocated.
\<close>

record cameramanager =
  m_cameraAvailable :: bool
  m_cameraRunning :: bool
  m_camera :: "string option"
  m_captureSession :: bool
  m_imageCapture :: bool
  m_lastCapturedImage :: "nat list"
  m_captureInProgress :: bool

datatype camera_signal = cameraStarted | cameraStopped | cameraError string

text \<open>
  What \<^verbatim>\<open>startCamera\<close> reads from outside: the devices
  \<^verbatim>\<open>QMediaDevices::videoInputs()\<close> lists, and the exception, if any, that the
  \<^verbatim>\<open>try\<close> block raises, with the number of members assigned before it
  (\<open>0\<close>: raised before the device list is read).
\<close>

record camera_env =
  videoInputs :: "string list"
  thrown :: "(nat \<times> string) option"

definition CameraManager :: "string list \<Rightarrow> cameramanager" where
  "CameraManager cameras =
     \<lparr>m_cameraAvailable = (cameras \<noteq> []),
      m_cameraRunning = False,
      m_camera = None,
      m_captureSession = False,
      m_imageCapture = False,
      m_lastCapturedImage = [],
      m_captureInProgress = False\<rparr>"

definition startCamera ::
  "camera_env \<Rightarrow> cameramanager \<Rightarrow> cameramanager \<times> camera_signal list \<times> bool" where
  "startCamera env s =
     (if \<not> m_cameraAvailable s then (s, [cameraError ''Camera not available''], False)
      else if m_cameraRunning s then (s, [], True)
      else
        let failed = (\<lambda>what. [cameraError (''Failed to start camera: '' @ what)]) in
        case thrown env of
          Some (0, what) \<Rightarrow> (s, failed what, False)
        | t \<Rightarrow>
            (case videoInputs env of
               [] \<Rightarrow> (s, [cameraError ''No camera found''], False)
             | first # others \<Rightarrow>
                 let s1 = s\<lparr>m_camera := Some first\<rparr>;
                     s2 = s1\<lparr>m_captureSession := True\<rparr>;
                     s3 = s2\<lparr>m_imageCapture := True\<rparr>
                 in
                 (case t of
                    Some (n, what) \<Rightarrow>
                      ((if n = 1 then s1 else if n = 2 then s2 else s3), failed what, False)
                  | None \<Rightarrow> (s3\<lparr>m_cameraRunning := True\<rparr>, [cameraStarted], True))))"

definition stopCamera :: "cameramanager \<Rightarrow> cameramanager \<times> camera_signal list" where
  "stopCamera s =
     (if \<not> m_cameraRunning s then (s, [])
      else (s\<lparr>m_camera := None, m_captureSession := False, m_imageCapture := False,
               m_cameraRunning := False\<rparr>,
            [cameraStopped]))"

text \<open>
  \<^verbatim>\<open>m_cameraAvailable\<close> is assigned by the constructor only and \<^verbatim>\<open>m_cameraRunning\<close>
  by \<^verbatim>\<open>startCamera\<close> and \<^verbatim>\<open>stopCamera\<close> only, so every state the object reaches
  satisfies \<open>camera_inv\<close>.
\<close>

definition camera_inv :: "cameramanager \<Rightarrow> bool" where
  "camera_inv s = (m_cameraRunning s \<longrightarrow> m_cameraAvailable s)"

section \<open>Vocabulary of the properties\<close>

text \<open>
  What a value becomes when it is written to a file and read back:
  \<^verbatim>\<open>saveToFile\<close> converts with \<open>fromVariant_value\<close>, \<^verbatim>\<open>loadFromFile\<close> with
  \<open>toVariant_value\<close>.  \<open>json_shaped\<close> holds of the values with no invalid variant
  inside, which are the ones that come back unchanged.
\<close>

definition json_norm :: "qvariant \<Rightarrow> qvariant" where
  "json_norm v = toVariant_value (fromVariant_value v)"

fun json_shaped :: "qvariant \<Rightarrow> bool" where
  "json_shaped VInvalid = False"
| "json_shaped (VList xs) = (\<forall>x \<in> set xs. json_shaped x)"
| "json_shaped (VMap m) = (\<forall>x \<in> set m. json_shaped (snd x))"
| "json_shaped _ = True"

text \<open>A sequence of operations, run from left to right.\<close>

fun run_ops :: "qt_convert \<Rightarrow> cachemanager \<Rightarrow> filesystem \<Rightarrow> cache_op list \<Rightarrow> filesystem" where
  "run_ops qt cm fs [] = fs"
| "run_ops qt cm fs (op # ops) = run_ops qt cm (apply_op qt cm fs op) ops"



section \<open>A kiosk, for concrete runs\<close>

text \<open>
  A station whose log holds one Pending event and whose roster holds one user.
  \<open>readonly_disk\<close> is the same disk when no file can be opened for writing,
  \<open>unreadable_disk\<close> when none can be opened for reading, \<open>full_disk\<close> when
  every write fails and \<open>torn_disk\<close> when every write is cut short.
\<close>

definition kiosk_qt :: qt_convert where
  "kiosk_qt = \<lparr>number_text = (\<lambda>d. ''0''),
               string_truth = (\<lambda>s. s \<noteq> [] \<and> s \<noteq> ''0'' \<and> s \<noteq> ''false'')\<rparr>"

definition kiosk_cm :: cachemanager where
  "kiosk_cm = CacheManager ''/data''"

definition stored_event :: qjson where
  "stored_event =
     JObject [(''id'', JString ''e1''), (''user_name'', JString ''Alice''),
              (''synced'', JBool False), (''cached_at'', JString ''2024-05-01T08:00:00'')]"

definition stored_roster :: qjson where
  "stored_roster =
     JObject [(''timestamp'', JString ''2024-05-01T07:00:00''),
              (''users'', JArray [JObject [(''id'', JString ''u1''), (''name'', JString ''Alice'')]])]"

definition kiosk_disk :: filesystem where
  "kiosk_disk =
     \<lparr>files = [m_logsCacheFile kiosk_cm \<mapsto> Json_Text (JArray [stored_event]),
               m_usersCacheFile kiosk_cm \<mapsto> Json_Text stored_roster],
      open_read_ok = (\<lambda>p. True),
      open_write_ok = (\<lambda>p. True),
      write_result = (\<lambda>p. Write_Complete)\<rparr>"

definition readonly_disk :: filesystem where
  "readonly_disk = kiosk_disk\<lparr>open_write_ok := (\<lambda>p. False)\<rparr>"

definition unreadable_disk :: filesystem where
  "unreadable_disk = kiosk_disk\<lparr>open_read_ok := (\<lambda>p. False)\<rparr>"

definition full_disk :: filesystem where
  "full_disk = kiosk_disk\<lparr>write_result := (\<lambda>p. Write_Failed)\<rparr>"

definition torn_disk :: filesystem where
  "torn_disk = kiosk_disk\<lparr>write_result := (\<lambda>p. Write_Short)\<rparr>"

definition new_event :: qvariantmap where
  "new_event = [(''id'', VString ''e2''), (''user_name'', VString ''Bob''), (''success'', VBool True)]"

definition repeated_event :: qvariantmap where
  "repeated_event = [(''id'', VString ''e1''), (''user_name'', VString ''Alice''), (''success'', VBool True)]"


definition alice_response :: qjsonobject where
  "alice_response =
     [(''matched'', JBool True), (''user_id'', JString ''u1''), (''name'', JString ''Alice''),
      (''distance'', JDouble 0.3), (''threshold'', JDouble 0.5)]"

definition one_camera :: camera_env where
  "one_camera = \<lparr>videoInputs = [''usb-cam''], thrown = None\<rparr>"

definition no_camera :: camera_env where
  "no_camera = \<lparr>videoInputs = [], thrown = None\<rparr>"

definition running_camera :: cameramanager where
  "running_camera = fst (startCamera one_camera (CameraManager [''usb-cam'']))"

section \<open>Facts about the value model\<close>

lemma fromVariant_toVariant_value: "fromVariant_value (toVariant_value j) = j"
  by (induction j) (auto intro!: map_idI simp: list.map_comp)

lemma map_fromVariant_toVariant: "map (fromVariant_value \<circ> toVariant_value) xs = xs"
  by (induction xs) (simp_all add: fromVariant_toVariant_value)

lemma json_norm_toVariant: "json_norm (toVariant_value j) = toVariant_value j"
  by (simp add: json_norm_def fromVariant_toVariant_value)

lemma json_norm_shaped: "json_shaped v \<Longrightarrow> json_norm v = v"
  unfolding json_norm_def
  by (induction v) (auto intro!: map_idI simp: list.map_comp)

lemma json_norm_simps:
  "json_norm VInvalid = VNull"
  "json_norm VNull = VNull"
  "json_norm (VBool b) = VBool b"
  "json_norm (VDouble d) = VDouble d"
  "json_norm (VString s) = VString s"
  "json_norm (VList xs) = VList (map json_norm xs)"
  "json_norm (VMap m) = VMap (map (map_prod id json_norm) m)"
  by (induction m) (auto simp: json_norm_def)

lemma map_of_map_values:
  "map_of (map (map_prod id f) m) k = map_option f (map_of m k)"
  by (induction m) auto

lemma map_of_qmap_insert:
  "map_of (qmap_insert k v m) k' = (if k' = k then Some v else map_of m k')"
  by (induction m) auto

lemma qmap_subscript_present: "map_of m k \<noteq> None \<Longrightarrow> qmap_subscript m k = m"
  by (auto simp: qmap_subscript_def)

lemma map_of_qmap_subscript:
  "map_of (qmap_subscript m k) k' =
     (if k' = k \<and> map_of m k = None then Some VInvalid else map_of m k')"
  by (auto simp: qmap_subscript_def map_of_qmap_insert split: option.splits)

lemma set_qmap_insert: "set (qmap_insert k v m) \<subseteq> insert (k, v) (set m)"
  by (induction m) (auto split: if_splits)

lemma json_shaped_qmap_insert:
  "json_shaped v \<Longrightarrow> json_shaped (VMap m) \<Longrightarrow> json_shaped (VMap (qmap_insert k v m))"
  using set_qmap_insert [of k v m] by auto

lemma toMap_json_norm: "toMap (json_norm e) = map (map_prod id json_norm) (toMap e)"
  by (cases e) (simp_all add: json_norm_simps)

lemma toBool_json_norm: "toBool qt (json_norm v) = toBool qt v"
  by (cases v) (simp_all add: json_norm_simps)


lemma synced_json_norm: "synced qt (json_norm e) = synced qt e"
  by (simp add: synced_def qmap_value_def toMap_json_norm map_of_map_values toBool_json_norm
           split: option.splits)


lemma is_event_json_norm: "is_event (json_norm e) = is_event e"
  by (cases e) (simp_all add: json_norm_simps map_of_map_values)

section \<open>Facts about files\<close>

lemma saveToFile_ok:
  "open_write_ok fs p \<Longrightarrow>
   saveToFile fs p v =
     (put_file fs p (write_bytes (write_result fs p) (toJson (fromVariant v))), True)"
  by (simp add: saveToFile_def put_file_def Let_def)

lemma saveToFile_other_paths:
  "q \<noteq> p \<Longrightarrow> files (fst (saveToFile fs p v)) q = files fs q"
  by (simp add: saveToFile_def put_file_def Let_def)

lemma write_bytes_list:
  "write_bytes w (toJson (fromVariant (VList xs))) =
     (case w of Write_Complete \<Rightarrow> Json_Text (JArray (map fromVariant_value xs))
              | Write_Short \<Rightarrow> Malformed_Bytes
              | Write_Failed \<Rightarrow> Empty_Bytes)"
  by (cases w) simp_all

lemma saveToFile_fail: "\<not> open_write_ok fs p \<Longrightarrow> saveToFile fs p v = (fs, False)"
  by (simp add: saveToFile_def)

lemma loadFromFile_put_file:
  "loadFromFile (put_file fs p b) p =
     (if open_read_ok fs p then toVariant (fromJson b) else VInvalid)"
  by (simp add: loadFromFile_def put_file_def)

lemma load_saved_map:
  "toVariant (fromJson (toJson (fromVariant (VMap m)))) = VMap (map (map_prod id json_norm) m)"
  by (induction m) (auto simp: json_norm_def)

lemma loadFromFile_unreadable: "\<not> open_read_ok fs p \<Longrightarrow> loadFromFile fs p = VInvalid"
  by (simp add: loadFromFile_def split: option.splits)

lemma loaded_list_normal:
  assumes "e \<in> set (toList (loadFromFile fs p))"
  shows "json_norm e = e"
proof -
  have parsed: "json_norm e = e" if e: "e \<in> set (toList (toVariant (fromJson b)))" for b
  proof (cases b)
    case (Json_Text j)
    with e show ?thesis by (cases j) (auto simp: json_norm_toVariant)
  qed (use e in simp_all)
  from assms show ?thesis
    by (auto simp: loadFromFile_def parsed split: option.splits if_splits)
qed

section \<open>Facts about the log\<close>

lemma getCachedLogs_normal: "map json_norm (getCachedLogs cm fs) = getCachedLogs cm fs"
  by (rule map_idI) (simp add: getCachedLogs_def loaded_list_normal)

lemma filter_normal:
  "map json_norm (filter P (getCachedLogs cm fs)) = filter P (getCachedLogs cm fs)"
proof (rule map_idI)
  fix e assume "e \<in> set (filter P (getCachedLogs cm fs))"
  then have "e \<in> set (toList (loadFromFile fs (m_logsCacheFile cm)))"
    by (simp add: getCachedLogs_def)
  then show "json_norm e = e" by (rule loaded_list_normal)
qed

lemma getCachedLogs_unreadable:
  "\<not> open_read_ok fs (m_logsCacheFile cm) \<Longrightarrow> getCachedLogs cm fs = []"
  by (simp add: getCachedLogs_def loadFromFile_unreadable)

lemma getCachedLogs_after_save:
  "getCachedLogs cm (fst (saveToFile fs (m_logsCacheFile cm) (VList xs))) =
     (if \<not> open_write_ok fs (m_logsCacheFile cm) then getCachedLogs cm fs
      else if open_read_ok fs (m_logsCacheFile cm) \<and>
              write_result fs (m_logsCacheFile cm) = Write_Complete
           then map json_norm xs
           else [])"
proof (cases "open_write_ok fs (m_logsCacheFile cm)")
  case True
  then show ?thesis
    by (cases "write_result fs (m_logsCacheFile cm)")
       (simp_all add: getCachedLogs_def saveToFile_ok loadFromFile_put_file write_bytes_list
          json_norm_def)
next
  case False
  then show ?thesis by (simp add: saveToFile_fail)
qed

lemma no_file_no_logs: "files fs (m_logsCacheFile cm) = None \<Longrightarrow> getCachedLogs cm fs = []"
  by (simp add: getCachedLogs_def loadFromFile_def)

lemma cacheLog_fst:
  "fst (cacheLog cm now fs logMap) =
     fst (saveToFile fs (m_logsCacheFile cm)
           (VList (getCachedLogs cm fs @
              [VMap (qmap_insert ''cached_at'' (VString now)
                      (qmap_insert ''synced'' (VBool False) logMap))])))"
  by (simp add: cacheLog_def Let_def split: prod.splits)

lemma cacheLog_snd:
  "snd (cacheLog cm now fs logMap) =
     (if open_write_ok fs (m_logsCacheFile cm) then [unsyncedLogsChanged] else [])"
  by (simp add: cacheLog_def Let_def saveToFile_def split: prod.splits)

lemma cacheUsers_fst:
  "fst (cacheUsers cm now fs users) =
     fst (saveToFile fs (m_usersCacheFile cm)
           (VMap (qmap_insert ''users'' (VList users)
                   (qmap_insert ''timestamp'' (VString now) []))))"
  by (simp add: cacheUsers_def Let_def split: prod.splits)

lemma markLogSynced_fst:
  "fst (markLogSynced qt cm now fs logId) =
     fst (saveToFile fs (m_logsCacheFile cm)
           (VList (mark_loop qt now logId (getCachedLogs cm fs))))"
  by (simp add: markLogSynced_def Let_def split: prod.splits)

lemma markLogSynced_snd:
  "snd (markLogSynced qt cm now fs logId) =
     (if open_write_ok fs (m_logsCacheFile cm) then [unsyncedLogsChanged] else [])"
  by (simp add: markLogSynced_def Let_def saveToFile_def split: prod.splits)

lemma clearSyncedLogs_fst:
  "fst (clearSyncedLogs qt cm fs) =
     fst (saveToFile fs (m_logsCacheFile cm)
           (VList (unsynced_loop qt (getCachedLogs cm fs) [])))"
  by (simp add: clearSyncedLogs_def Let_def split: prod.splits)

lemma getCachedLogs_cacheLog:
  "getCachedLogs cm (fst (cacheLog cm now fs logMap)) =
     (if \<not> open_write_ok fs (m_logsCacheFile cm) then getCachedLogs cm fs
      else if open_read_ok fs (m_logsCacheFile cm) \<and>
              write_result fs (m_logsCacheFile cm) = Write_Complete
           then getCachedLogs cm fs @
                  [json_norm (VMap (qmap_insert ''cached_at'' (VString now)
                                     (qmap_insert ''synced'' (VBool False) logMap)))]
           else [])"
  unfolding cacheLog_fst getCachedLogs_after_save
  by (simp add: getCachedLogs_normal)

lemma getCachedLogs_markLogSynced:
  "getCachedLogs cm (fst (markLogSynced qt cm now fs logId)) =
     (if \<not> open_write_ok fs (m_logsCacheFile cm) then getCachedLogs cm fs
      else if open_read_ok fs (m_logsCacheFile cm) \<and>
              write_result fs (m_logsCacheFile cm) = Write_Complete
           then map json_norm (mark_loop qt now logId (getCachedLogs cm fs))
           else [])"
  unfolding markLogSynced_fst getCachedLogs_after_save ..

lemma getCachedLogs_clearSyncedLogs:
  "getCachedLogs cm (fst (clearSyncedLogs qt cm fs)) =
     (if \<not> open_write_ok fs (m_logsCacheFile cm) then getCachedLogs cm fs
      else if open_read_ok fs (m_logsCacheFile cm) \<and>
              write_result fs (m_logsCacheFile cm) = Write_Complete
           then map json_norm (unsynced_loop qt (getCachedLogs cm fs) [])
           else [])"
  unfolding clearSyncedLogs_fst getCachedLogs_after_save ..

text \<open>The two loops, as list functions.\<close>

lemma unsynced_loop_eq:
  "unsynced_loop qt xs acc =
     acc @ map (\<lambda>e. VMap (qmap_subscript (toMap e) ''synced''))
               (filter (\<lambda>e. \<not> synced qt e) xs)"
  by (induction xs arbitrary: acc) (simp_all add: synced_def Let_def)

lemma is_event_subscript: "is_event e \<Longrightarrow> VMap (qmap_subscript (toMap e) ''synced'') = e"
  by (cases e) (simp_all add: qmap_subscript_present)

lemma unsynced_loop_events:
  "\<forall>e \<in> set xs. is_event e \<Longrightarrow>
   unsynced_loop qt xs [] = filter (\<lambda>e. \<not> synced qt e) xs"
  by (simp add: unsynced_loop_eq) (rule map_idI, simp add: is_event_subscript)

lemma mark_loop_absent:
  "\<forall>e \<in> set xs. log_id qt e \<noteq> logId \<Longrightarrow> mark_loop qt now logId xs = xs"
  by (induction xs) (simp_all add: log_id_def)

lemma synced_marked:
  "synced qt (VMap (qmap_insert ''synced_at'' t (qmap_insert ''synced'' (VBool True) m)))"
  by (simp add: synced_def qmap_value_def map_of_qmap_insert)

lemma length_mark_loop: "length (mark_loop qt now logId xs) = length xs"
  by (induction xs) (simp_all add: Let_def)

lemma mark_loop_keeps_synced:
  "k < length xs \<Longrightarrow> synced qt (xs ! k) \<Longrightarrow> synced qt (mark_loop qt now logId xs ! k)"
proof (induction xs arbitrary: k)
  case Nil
  then show ?case by simp
next
  case (Cons e xs)
  show ?case
  proof (cases "toString qt (qmap_value (toMap e) ''id'') = logId")
    case True
    with Cons.prems show ?thesis
      by (cases k) (simp_all add: Let_def synced_marked)
  next
    case False
    with Cons show ?thesis
      by (cases k) (simp_all add: Let_def)
  qed
qed

lemma mark_loop_events:
  "\<forall>e \<in> set xs. is_event e \<Longrightarrow> \<forall>e \<in> set (mark_loop qt now logId xs). is_event e"
  by (induction xs) (auto simp: Let_def map_of_qmap_insert)

text \<open>
  Every operation keeps the log a list of events, and a log file that does not
  exist yet is the empty list: each log the operations build is a list of events.
\<close>

lemma events_preserved:
  assumes "\<forall>e \<in> set (getCachedLogs cm fs). is_event e"
  shows "\<forall>e \<in> set (getCachedLogs cm (apply_op qt cm fs op)). is_event e"
proof (cases op)
  case (CacheLog logMap now)
  with assms show ?thesis
    by (auto simp: getCachedLogs_cacheLog is_event_json_norm map_of_qmap_insert)
next
  case (MarkLogSynced logId now)
  with assms mark_loop_events [OF assms, of qt now logId] show ?thesis
    by (auto simp: getCachedLogs_markLogSynced is_event_json_norm)
next
  case ClearSyncedLogs
  with assms show ?thesis
    by (auto simp: getCachedLogs_clearSyncedLogs unsynced_loop_events filter_normal)
qed

lemma run_ops_events:
  "\<forall>e \<in> set (getCachedLogs cm fs). is_event e \<Longrightarrow>
   \<forall>e \<in> set (getCachedLogs cm (run_ops qt cm fs ops)). is_event e"
proof (induction ops arbitrary: fs)
  case Nil
  then show ?case by simp
next
  case (Cons op ops)
  from Cons.IH [OF events_preserved [OF Cons.prems]] show ?case by simp
qed


lemma log_id_marked:
  "log_id qt (VMap (qmap_insert ''synced_at'' t
                     (qmap_insert ''synced'' (VBool True) (qmap_subscript m ''id'')))) =
   log_id qt (VMap m)"
  by (simp add: log_id_def qmap_value_def map_of_qmap_insert map_of_qmap_subscript
           split: option.splits)








text \<open>
  One step of the log, position by position: an operation keeps the entries in
  place and the Synced ones Synced, or removes entries; a write that does not
  complete leaves no entry at all.
\<close>

lemma apply_op_positions:
  assumes "\<forall>e \<in> set (getCachedLogs cm fs). is_event e"
  shows "case op of
           ClearSyncedLogs \<Rightarrow>
             getCachedLogs cm (apply_op qt cm fs op) = [] \<or>
             getCachedLogs cm (apply_op qt cm fs op) = getCachedLogs cm fs \<or>
             getCachedLogs cm (apply_op qt cm fs op) =
               filter (\<lambda>e. \<not> synced qt e) (getCachedLogs cm fs)
         | _ \<Rightarrow>
             getCachedLogs cm (apply_op qt cm fs op) = [] \<or>
             length (getCachedLogs cm fs) \<le> length (getCachedLogs cm (apply_op qt cm fs op)) \<and>
             (\<forall>k < length (getCachedLogs cm fs).
                synced qt (getCachedLogs cm fs ! k) \<longrightarrow>
                synced qt (getCachedLogs cm (apply_op qt cm fs op) ! k))"
proof (cases op)
  case (CacheLog logMap now)
  then show ?thesis
    by (simp add: getCachedLogs_cacheLog nth_append)
next
  case (MarkLogSynced logId now)
  then show ?thesis
    by (simp add: getCachedLogs_markLogSynced length_mark_loop synced_json_norm
          mark_loop_keeps_synced)
next
  case ClearSyncedLogs
  with assms show ?thesis
    by (simp add: getCachedLogs_clearSyncedLogs unsynced_loop_events filter_normal)
qed

section \<open>Facts about the kiosk\<close>

lemmas kiosk_defs = kiosk_qt_def kiosk_cm_def stored_event_def stored_roster_def kiosk_disk_def
  readonly_disk_def unreadable_disk_def full_disk_def torn_disk_def new_event_def
  repeated_event_def CacheManager_def

lemma kiosk_logs: "getCachedLogs kiosk_cm kiosk_disk = [toVariant_value stored_event]"
  by (simp add: kiosk_defs getCachedLogs_def loadFromFile_def)


lemma kiosk_event_id: "log_id kiosk_qt (toVariant_value stored_event) = ''e1''"
  by (simp add: stored_event_def log_id_def qmap_value_def)


lemma kiosk_paths:
  "open_write_ok kiosk_disk p" "open_read_ok kiosk_disk p"
  "write_result kiosk_disk p = Write_Complete" "\<not> open_write_ok readonly_disk p"
  by (simp_all add: kiosk_disk_def readonly_disk_def)

lemma damaged_paths:
  "open_write_ok unreadable_disk p" "\<not> open_read_ok unreadable_disk p"
  "write_result unreadable_disk p = Write_Complete"
  "open_write_ok full_disk p" "open_read_ok full_disk p" "write_result full_disk p = Write_Failed"
  "open_write_ok torn_disk p" "open_read_ok torn_disk p" "write_result torn_disk p = Write_Short"
  by (simp_all add: kiosk_disk_def unreadable_disk_def full_disk_def torn_disk_def)

lemma damaged_logs:
  "getCachedLogs kiosk_cm full_disk = [toVariant_value stored_event]"
  "getCachedLogs kiosk_cm torn_disk = [toVariant_value stored_event]"
  "getCachedLogs kiosk_cm readonly_disk = [toVariant_value stored_event]"
  by (simp_all add: kiosk_defs getCachedLogs_def loadFromFile_def)


section \<open>Facts about the camera\<close>

lemma camera_inv_init: "camera_inv (CameraManager cameras)"
  by (simp add: camera_inv_def CameraManager_def)

lemma camera_inv_startCamera: "camera_inv s \<Longrightarrow> camera_inv (fst (startCamera env s))"
  by (auto simp: camera_inv_def startCamera_def Let_def
           split: option.splits list.splits prod.splits nat.splits)

lemma camera_inv_stopCamera: "camera_inv s \<Longrightarrow> camera_inv (fst (stopCamera s))"
  by (simp add: camera_inv_def stopCamera_def)

lemma running_camera_eq:
  "running_camera =
     \<lparr>m_cameraAvailable = True, m_cameraRunning = True, m_camera = Some ''usb-cam'',
      m_captureSession = True, m_imageCapture = True, m_lastCapturedImage = [],
      m_captureInProgress = False\<rparr>"
  by (simp add: running_camera_def one_camera_def startCamera_def CameraManager_def)

section \<open>OfflineCache: persistence\<close>

text \<open>
  Claim C1, as amended.  Every mutating operation of the cache (\<^verbatim>\<open>cacheLog\<close>,
  \<^verbatim>\<open>markLogSynced\<close>, \<^verbatim>\<open>clearSyncedLogs\<close>, \<^verbatim>\<open>cacheUsers\<close>) writes its snapshot in
  place through \<^verbatim>\<open>saveToFile\<close>: there is no temporary file and no rename, and no
  file but the target is touched.  When the target cannot be opened the disk is
  unchanged and \<^verbatim>\<open>saveToFile\<close> returns \<open>false\<close>.  When it can be opened,
  \<^verbatim>\<open>saveToFile\<close> returns \<open>true\<close> and the target holds what the write left: the new
  document after a complete write, nothing after a failed one, a part that does
  not parse after one that was cut short.  After a write of the log that did not
  complete the log reads back empty, whatever it held before.
\<close>

theorem saveToFile_writes_in_place:
  "(\<forall>p. p \<noteq> filePath \<longrightarrow> files (fst (saveToFile fs filePath data)) p = files fs p) \<and>
   (\<not> open_write_ok fs filePath \<longrightarrow> saveToFile fs filePath data = (fs, False)) \<and>
   (open_write_ok fs filePath \<longrightarrow>
      snd (saveToFile fs filePath data) = True \<and>
      files (fst (saveToFile fs filePath data)) filePath =
        Some (write_bytes (write_result fs filePath) (toJson (fromVariant data)))) \<and>
   (open_write_ok fs (m_logsCacheFile cm) \<and> write_result fs (m_logsCacheFile cm) \<noteq> Write_Complete \<longrightarrow>
      getCachedLogs cm (fst (saveToFile fs (m_logsCacheFile cm) (VList logs))) = []) \<and>
   fst (cacheLog cm now fs logMap) =
     fst (saveToFile fs (m_logsCacheFile cm)
           (VList (getCachedLogs cm fs @
              [VMap (qmap_insert ''cached_at'' (VString now)
                      (qmap_insert ''synced'' (VBool False) logMap))]))) \<and>
   fst (markLogSynced qt cm now fs logId) =
     fst (saveToFile fs (m_logsCacheFile cm)
           (VList (mark_loop qt now logId (getCachedLogs cm fs)))) \<and>
   fst (clearSyncedLogs qt cm fs) =
     fst (saveToFile fs (m_logsCacheFile cm)
           (VList (unsynced_loop qt (getCachedLogs cm fs) []))) \<and>
   fst (cacheUsers cm now fs users) =
     fst (saveToFile fs (m_usersCacheFile cm)
           (VMap (qmap_insert ''users'' (VList users)
                   (qmap_insert ''timestamp'' (VString now) []))))"
proof -
  have other: "\<forall>p. p \<noteq> filePath \<longrightarrow> files (fst (saveToFile fs filePath data)) p = files fs p"
    by (simp add: saveToFile_other_paths)
  have closed: "\<not> open_write_ok fs filePath \<longrightarrow> saveToFile fs filePath data = (fs, False)"
    by (simp add: saveToFile_fail)
  have opened: "open_write_ok fs filePath \<longrightarrow>
      snd (saveToFile fs filePath data) = True \<and>
      files (fst (saveToFile fs filePath data)) filePath =
        Some (write_bytes (write_result fs filePath) (toJson (fromVariant data)))"
    by (simp add: saveToFile_ok put_file_def)
  have lost: "open_write_ok fs (m_logsCacheFile cm) \<and>
              write_result fs (m_logsCacheFile cm) \<noteq> Write_Complete \<longrightarrow>
      getCachedLogs cm (fst (saveToFile fs (m_logsCacheFile cm) (VList logs))) = []"
    by (simp add: getCachedLogs_after_save)
  from other closed opened lost show ?thesis
    by (simp only: cacheLog_fst markLogSynced_fst clearSyncedLogs_fst cacheUsers_fst simp_thms)
qed

theorem saveToFile_writes_in_place_witness:
  "files (fst (saveToFile full_disk (m_logsCacheFile kiosk_cm) (VList [VMap new_event])))
     (m_usersCacheFile kiosk_cm) = files full_disk (m_usersCacheFile kiosk_cm) \<and>
   saveToFile readonly_disk (m_logsCacheFile kiosk_cm) (VList [VMap new_event]) =
     (readonly_disk, False) \<and>
   snd (saveToFile full_disk (m_logsCacheFile kiosk_cm) (VList [VMap new_event])) = True \<and>
   files (fst (saveToFile full_disk (m_logsCacheFile kiosk_cm) (VList [VMap new_event])))
     (m_logsCacheFile kiosk_cm) = Some Empty_Bytes \<and>
   getCachedLogs kiosk_cm
     (fst (saveToFile full_disk (m_logsCacheFile kiosk_cm) (VList [VMap new_event]))) = []"
proof -
  have differ: "m_usersCacheFile kiosk_cm \<noteq> m_logsCacheFile kiosk_cm"
    by (simp add: kiosk_cm_def CacheManager_def)
  from saveToFile_writes_in_place
         [where fs = full_disk and filePath = "m_logsCacheFile kiosk_cm"
            and data = "VList [VMap new_event]" and cm = kiosk_cm and logs = "[VMap new_event]"]
       saveToFile_writes_in_place
         [where fs = readonly_disk and filePath = "m_logsCacheFile kiosk_cm"
            and data = "VList [VMap new_event]"]
       differ
  show ?thesis
    by (simp add: damaged_paths kiosk_paths)
qed

text \<open>
  The claim as the specification states it fails.  The log of the kiosk holds one
  event; recording a second one with a write that is cut short leaves a file
  that does not parse, and one with a write that fails leaves an empty file; the
  log read back is empty in both cases.
\<close>

theorem saveToFile_interrupted_counterexample:
  "getCachedLogs kiosk_cm torn_disk = [toVariant_value stored_event] \<and>
   files (fst (cacheLog kiosk_cm ''2024-05-01T09:00:00'' torn_disk new_event))
     (m_logsCacheFile kiosk_cm) = Some Malformed_Bytes \<and>
   getCachedLogs kiosk_cm (fst (cacheLog kiosk_cm ''2024-05-01T09:00:00'' torn_disk new_event)) = [] \<and>
   getCachedLogs kiosk_cm full_disk = [toVariant_value stored_event] \<and>
   files (fst (cacheLog kiosk_cm ''2024-05-01T09:00:00'' full_disk new_event))
     (m_logsCacheFile kiosk_cm) = Some Empty_Bytes \<and>
   getCachedLogs kiosk_cm (fst (cacheLog kiosk_cm ''2024-05-01T09:00:00'' full_disk new_event)) = []"
proof -
  have logs: "getCachedLogs kiosk_cm (fst (cacheLog kiosk_cm ''2024-05-01T09:00:00'' torn_disk new_event)) = []"
             "getCachedLogs kiosk_cm (fst (cacheLog kiosk_cm ''2024-05-01T09:00:00'' full_disk new_event)) = []"
    by (simp_all add: getCachedLogs_cacheLog damaged_paths)
  have stored:
    "files (fst (cacheLog kiosk_cm ''2024-05-01T09:00:00'' torn_disk new_event))
       (m_logsCacheFile kiosk_cm) = Some Malformed_Bytes"
    "files (fst (cacheLog kiosk_cm ''2024-05-01T09:00:00'' full_disk new_event))
       (m_logsCacheFile kiosk_cm) = Some Empty_Bytes"
    by (simp_all add: cacheLog_fst saveToFile_ok damaged_paths put_file_def write_bytes_list)
  from logs stored damaged_logs(1,2) show ?thesis by simp
qed

text \<open>
  Claim C2, as amended.  When the log file cannot be opened for writing,
  \<^verbatim>\<open>cacheLog\<close> does not retry and reports nothing: it leaves the disk as it was, so
  the event is not recorded, and emits no signal.  When the file can be opened it
  emits \<^verbatim>\<open>unsyncedLogsChanged\<close>, and that signal is all a caller can observe.
\<close>

theorem cacheLog_write_failure_silent:
  "(\<not> open_write_ok fs (m_logsCacheFile cm) \<longrightarrow>
      cacheLog cm now fs logMap = (fs, []) \<and>
      getCachedLogs cm (fst (cacheLog cm now fs logMap)) = getCachedLogs cm fs) \<and>
   (open_write_ok fs (m_logsCacheFile cm) \<longrightarrow>
      snd (cacheLog cm now fs logMap) = [unsyncedLogsChanged])"
  by (simp add: cacheLog_def saveToFile_def Let_def)

theorem cacheLog_write_failure_silent_witness:
  "\<not> open_write_ok readonly_disk (m_logsCacheFile kiosk_cm) \<and>
   fst (cacheLog kiosk_cm ''2024-05-01T10:00:00'' readonly_disk new_event) = readonly_disk \<and>
   open_write_ok kiosk_disk (m_logsCacheFile kiosk_cm) \<and>
   snd (cacheLog kiosk_cm ''2024-05-01T10:00:00'' kiosk_disk new_event) = [unsyncedLogsChanged]"
  using cacheLog_write_failure_silent
          [where fs = readonly_disk and cm = kiosk_cm and now = "''2024-05-01T10:00:00''"
             and logMap = new_event]
        cacheLog_write_failure_silent
          [where fs = kiosk_disk and cm = kiosk_cm and now = "''2024-05-01T10:00:00''"
             and logMap = new_event]
  by (simp add: kiosk_paths)

text \<open>
  The claim as the specification states it fails: on the disk that cannot be
  written, recording an event changes nothing and emits nothing, and the log
  still holds the one event it held before.
\<close>

theorem cacheLog_dropped_counterexample:
  "cacheLog kiosk_cm ''2024-05-01T09:00:00'' readonly_disk new_event = (readonly_disk, []) \<and>
   getCachedLogs kiosk_cm readonly_disk = [toVariant_value stored_event]"
  by (simp add: damaged_logs cacheLog_def saveToFile_fail kiosk_paths)

section \<open>OfflineCache: the log\<close>




text \<open>
  Claim C4, as amended.  When the log file can be opened for writing and for
  reading and the write completes, \<^verbatim>\<open>cacheLog\<close> appends the event to the stored log
  with \<^verbatim>\<open>synced\<close> set to \<open>false\<close> and the time of caching; the file holds the
  extended log when the call returns, and the call signals the change.  The
  entry read back is the event as JSON stores it; an event with no invalid
  variant inside is read back field by field as it was given.  When the file
  cannot be opened for writing, nothing is appended and nothing is signalled.
\<close>

theorem cacheLog_appends_pending:
  "(open_write_ok fs (m_logsCacheFile cm) \<and> open_read_ok fs (m_logsCacheFile cm) \<and>
    write_result fs (m_logsCacheFile cm) = Write_Complete \<longrightarrow>
      getCachedLogs cm (fst (cacheLog cm now fs logMap)) =
        getCachedLogs cm fs @
          [json_norm (VMap (qmap_insert ''cached_at'' (VString now)
                             (qmap_insert ''synced'' (VBool False) logMap)))] \<and>
      (json_shaped (VMap logMap) \<longrightarrow>
         last (getCachedLogs cm (fst (cacheLog cm now fs logMap))) =
           VMap (qmap_insert ''cached_at'' (VString now)
                  (qmap_insert ''synced'' (VBool False) logMap))) \<and>
      qmap_value (toMap (last (getCachedLogs cm (fst (cacheLog cm now fs logMap))))) ''synced'' =
        VBool False \<and>
      \<not> synced qt (last (getCachedLogs cm (fst (cacheLog cm now fs logMap)))) \<and>
      files (fst (cacheLog cm now fs logMap)) (m_logsCacheFile cm) =
        Some (toJson (fromVariant (VList (getCachedLogs cm fs @
                [VMap (qmap_insert ''cached_at'' (VString now)
                        (qmap_insert ''synced'' (VBool False) logMap))])))) \<and>
      snd (cacheLog cm now fs logMap) = [unsyncedLogsChanged]) \<and>
   (\<not> open_write_ok fs (m_logsCacheFile cm) \<longrightarrow>
      getCachedLogs cm (fst (cacheLog cm now fs logMap)) = getCachedLogs cm fs \<and>
      files (fst (cacheLog cm now fs logMap)) = files fs \<and>
      snd (cacheLog cm now fs logMap) = [])"
proof -
  let ?entry = "VMap (qmap_insert ''cached_at'' (VString now)
                       (qmap_insert ''synced'' (VBool False) logMap))"
  have shaped: "json_norm ?entry = ?entry" if "json_shaped (VMap logMap)"
    using that by (intro json_norm_shaped json_shaped_qmap_insert) simp_all
  have field: "qmap_value (toMap (json_norm ?entry)) ''synced'' = VBool False"
    by (simp add: qmap_value_def toMap_json_norm map_of_map_values map_of_qmap_insert
          json_norm_simps)
  have pending: "\<not> synced qt (json_norm ?entry)"
    by (simp add: synced_def field)
  have stored: "files (fst (cacheLog cm now fs logMap)) (m_logsCacheFile cm) =
                  Some (toJson (fromVariant (VList (getCachedLogs cm fs @ [?entry]))))"
    if "open_write_ok fs (m_logsCacheFile cm)"
       "write_result fs (m_logsCacheFile cm) = Write_Complete"
    using that by (simp add: cacheLog_fst saveToFile_ok put_file_def)
  have unopened: "files (fst (cacheLog cm now fs logMap)) = files fs"
    if "\<not> open_write_ok fs (m_logsCacheFile cm)"
    using that by (simp add: cacheLog_fst saveToFile_fail)
  from shaped field pending stored unopened show ?thesis
    by (simp add: getCachedLogs_cacheLog cacheLog_snd)
qed

theorem cacheLog_appends_pending_witness:
  "getCachedLogs kiosk_cm (fst (cacheLog kiosk_cm ''2024-05-01T10:00:00'' kiosk_disk new_event)) =
     [toVariant_value stored_event,
      VMap [(''id'', VString ''e2''), (''user_name'', VString ''Bob''), (''success'', VBool True),
            (''synced'', VBool False), (''cached_at'', VString ''2024-05-01T10:00:00'')]] \<and>
   snd (cacheLog kiosk_cm ''2024-05-01T10:00:00'' readonly_disk new_event) = []"
  using cacheLog_appends_pending
          [where fs = kiosk_disk and cm = kiosk_cm and now = "''2024-05-01T10:00:00''"
             and logMap = new_event and qt = kiosk_qt]
        cacheLog_appends_pending
          [where fs = readonly_disk and cm = kiosk_cm and now = "''2024-05-01T10:00:00''"
             and logMap = new_event and qt = kiosk_qt]
  by (simp add: kiosk_paths kiosk_logs new_event_def json_norm_simps)

text \<open>
  The claim as the specification states it fails.  On the disk that cannot be
  written the call returns with the event in no file.  On the disk that cannot
  be read the call does not append to the stored log: the file that held the
  event \<^verbatim>\<open>e1\<close> holds the new event alone.
\<close>

theorem cacheLog_not_appended_counterexample:
  "files (fst (cacheLog kiosk_cm ''2024-05-01T09:00:00'' readonly_disk new_event))
     (m_logsCacheFile kiosk_cm) = Some (Json_Text (JArray [stored_event])) \<and>
   files unreadable_disk (m_logsCacheFile kiosk_cm) = Some (Json_Text (JArray [stored_event])) \<and>
   files (fst (cacheLog kiosk_cm ''2024-05-01T09:00:00'' unreadable_disk new_event))
     (m_logsCacheFile kiosk_cm) =
     Some (Json_Text (JArray
       [JObject [(''id'', JString ''e2''), (''user_name'', JString ''Bob''), (''success'', JBool True),
                 (''synced'', JBool False), (''cached_at'', JString ''2024-05-01T09:00:00'')]]))"
  by (simp add: cacheLog_fst saveToFile_fail saveToFile_ok kiosk_paths damaged_paths put_file_def
        getCachedLogs_unreadable new_event_def)
     (simp add: kiosk_defs)



text \<open>
  Claim C10, as amended.  When no stored event has the id \<open>logId\<close>, the log file
  can be opened for reading, and it either cannot be opened for writing or the
  write completes, \<^verbatim>\<open>markLogSynced\<close> leaves the stored log as it was: the list read
  back after the call is the list read before it, and a file that held a log
  holds the same log.  The call is no error, and it is not idle either: when the
  file can be opened for writing, \<^verbatim>\<open>unsyncedLogsChanged\<close> is emitted.
\<close>

theorem markLogSynced_absent_id_noop:
  assumes absent: "\<forall>e \<in> set (getCachedLogs cm fs). log_id qt e \<noteq> logId"
      and readable: "open_read_ok fs (m_logsCacheFile cm)"
      and written: "\<not> open_write_ok fs (m_logsCacheFile cm) \<or>
                    write_result fs (m_logsCacheFile cm) = Write_Complete"
  shows "getCachedLogs cm (fst (markLogSynced qt cm now fs logId)) = getCachedLogs cm fs \<and>
         (files fs (m_logsCacheFile cm) = Some (Json_Text (JArray xs)) \<longrightarrow>
            files (fst (markLogSynced qt cm now fs logId)) (m_logsCacheFile cm) =
              Some (Json_Text (JArray xs))) \<and>
         snd (markLogSynced qt cm now fs logId) =
           (if open_write_ok fs (m_logsCacheFile cm) then [unsyncedLogsChanged] else [])"
proof -
  have same: "mark_loop qt now logId (getCachedLogs cm fs) = getCachedLogs cm fs"
    by (rule mark_loop_absent [OF absent])
  have logs: "getCachedLogs cm (fst (markLogSynced qt cm now fs logId)) = getCachedLogs cm fs"
    using readable written
    by (auto simp: getCachedLogs_markLogSynced same getCachedLogs_normal)
  have stored: "files (fst (markLogSynced qt cm now fs logId)) (m_logsCacheFile cm) =
                  Some (Json_Text (JArray xs))"
    if held: "files fs (m_logsCacheFile cm) = Some (Json_Text (JArray xs))"
  proof (cases "open_write_ok fs (m_logsCacheFile cm)")
    case True
    with written have complete: "write_result fs (m_logsCacheFile cm) = Write_Complete"
      by simp
    have "getCachedLogs cm fs = map toVariant_value xs"
      using held readable by (simp add: getCachedLogs_def loadFromFile_def)
    with same have "mark_loop qt now logId (getCachedLogs cm fs) = map toVariant_value xs"
      by simp
    with True complete show ?thesis
      by (simp add: markLogSynced_fst saveToFile_ok put_file_def map_fromVariant_toVariant)
  next
    case False
    with held show ?thesis by (simp add: markLogSynced_fst saveToFile_fail)
  qed
  from logs stored show ?thesis
    by (simp add: markLogSynced_snd)
qed

theorem markLogSynced_absent_id_noop_witness:
  "log_id kiosk_qt (toVariant_value stored_event) \<noteq> ''e7'' \<and>
   getCachedLogs kiosk_cm
     (fst (markLogSynced kiosk_qt kiosk_cm ''2024-05-01T10:00:00'' kiosk_disk ''e7'')) =
     [toVariant_value stored_event] \<and>
   files (fst (markLogSynced kiosk_qt kiosk_cm ''2024-05-01T10:00:00'' kiosk_disk ''e7''))
     (m_logsCacheFile kiosk_cm) = Some (Json_Text (JArray [stored_event]))"
proof -
  have absent: "\<forall>e \<in> set (getCachedLogs kiosk_cm kiosk_disk). log_id kiosk_qt e \<noteq> ''e7''"
    by (simp add: kiosk_logs kiosk_event_id)
  have readable: "open_read_ok kiosk_disk (m_logsCacheFile kiosk_cm)"
    by (rule kiosk_paths)
  have written: "\<not> open_write_ok kiosk_disk (m_logsCacheFile kiosk_cm) \<or>
                 write_result kiosk_disk (m_logsCacheFile kiosk_cm) = Write_Complete"
    by (simp add: kiosk_paths)
  have held: "files kiosk_disk (m_logsCacheFile kiosk_cm) = Some (Json_Text (JArray [stored_event]))"
    by (simp add: kiosk_disk_def kiosk_cm_def CacheManager_def)
  from markLogSynced_absent_id_noop
         [OF absent readable written, where now = "''2024-05-01T10:00:00''" and xs = "[stored_event]"]
       held
  show ?thesis
    by (simp add: kiosk_logs kiosk_event_id)
qed

text \<open>
  The claim as the specification states it fails.  On the disk that cannot be
  read no stored event has the id \<^verbatim>\<open>e7\<close>, and marking \<^verbatim>\<open>e7\<close> replaces the log file,
  which held the event \<^verbatim>\<open>e1\<close>, by the empty log.
\<close>

theorem markLogSynced_rewrites_counterexample:
  "files unreadable_disk (m_logsCacheFile kiosk_cm) = Some (Json_Text (JArray [stored_event])) \<and>
   files (fst (markLogSynced kiosk_qt kiosk_cm ''2024-05-01T10:00:00'' unreadable_disk ''e7''))
     (m_logsCacheFile kiosk_cm) = Some (Json_Text (JArray []))"
  by (simp add: markLogSynced_fst saveToFile_ok damaged_paths put_file_def getCachedLogs_unreadable)
     (simp add: kiosk_defs)

section \<open>OfflineCache: the roster\<close>

text \<open>
  Claim C6, as amended.  When the roster file can be opened for writing and for
  reading, the write completes, and the user records hold no invalid variant,
  \<^verbatim>\<open>cacheUsers\<close> followed by \<^verbatim>\<open>getCachedUsers\<close> returns the list that was cached, the
  empty list included.  When the file cannot be opened for writing,
  \<^verbatim>\<open>cacheUsers\<close> changes nothing and emits nothing, and \<^verbatim>\<open>getCachedUsers\<close> returns
  what it returned before.
\<close>

theorem roster_round_trip:
  "(open_write_ok fs (m_usersCacheFile cm) \<and> open_read_ok fs (m_usersCacheFile cm) \<and>
    write_result fs (m_usersCacheFile cm) = Write_Complete \<and> (\<forall>u \<in> set users. json_shaped u) \<longrightarrow>
      getCachedUsers cm (fst (cacheUsers cm now fs users)) = users) \<and>
   (\<not> open_write_ok fs (m_usersCacheFile cm) \<longrightarrow>
      cacheUsers cm now fs users = (fs, []) \<and>
      getCachedUsers cm (fst (cacheUsers cm now fs users)) = getCachedUsers cm fs)"
proof
  show "open_write_ok fs (m_usersCacheFile cm) \<and> open_read_ok fs (m_usersCacheFile cm) \<and>
        write_result fs (m_usersCacheFile cm) = Write_Complete \<and> (\<forall>u \<in> set users. json_shaped u) \<longrightarrow>
          getCachedUsers cm (fst (cacheUsers cm now fs users)) = users"
  proof
    assume ok: "open_write_ok fs (m_usersCacheFile cm) \<and> open_read_ok fs (m_usersCacheFile cm) \<and>
                write_result fs (m_usersCacheFile cm) = Write_Complete \<and>
                (\<forall>u \<in> set users. json_shaped u)"
    let ?cacheData = "qmap_insert ''users'' (VList users)
                        (qmap_insert ''timestamp'' (VString now) [])"
    have norm: "map json_norm users = users"
      using ok by (intro map_idI) (simp add: json_norm_shaped)
    have "fst (cacheUsers cm now fs users) =
          put_file fs (m_usersCacheFile cm) (toJson (fromVariant (VMap ?cacheData)))"
      using ok by (simp add: cacheUsers_fst saveToFile_ok)
    then have "loadFromFile (fst (cacheUsers cm now fs users)) (m_usersCacheFile cm) =
               VMap (map (map_prod id json_norm) ?cacheData)"
      using ok by (simp only: loadFromFile_put_file load_saved_map if_True)
    then have "getCachedUsers cm (fst (cacheUsers cm now fs users)) = map json_norm users"
      by (simp add: getCachedUsers_def qmap_value_def json_norm_simps)
    with norm show "getCachedUsers cm (fst (cacheUsers cm now fs users)) = users" by simp
  qed
next
  show "\<not> open_write_ok fs (m_usersCacheFile cm) \<longrightarrow>
          cacheUsers cm now fs users = (fs, []) \<and>
          getCachedUsers cm (fst (cacheUsers cm now fs users)) = getCachedUsers cm fs"
    by (simp add: cacheUsers_def saveToFile_fail)
qed

theorem roster_round_trip_witness:
  "getCachedUsers kiosk_cm (fst (cacheUsers kiosk_cm ''2024-05-01T10:00:00'' kiosk_disk [])) = [] \<and>
   getCachedUsers kiosk_cm
     (fst (cacheUsers kiosk_cm ''2024-05-01T10:00:00'' kiosk_disk
             [VMap [(''id'', VString ''u2''), (''name'', VString ''Bob'')]])) =
     [VMap [(''id'', VString ''u2''), (''name'', VString ''Bob'')]] \<and>
   cacheUsers kiosk_cm ''2024-05-01T10:00:00'' readonly_disk [] = (readonly_disk, [])"
  using roster_round_trip
          [where fs = kiosk_disk and cm = kiosk_cm and users = "[]"
             and now = "''2024-05-01T10:00:00''"]
        roster_round_trip
          [where fs = kiosk_disk and cm = kiosk_cm
             and users = "[VMap [(''id'', VString ''u2''), (''name'', VString ''Bob'')]]"
             and now = "''2024-05-01T10:00:00''"]
        roster_round_trip
          [where fs = readonly_disk and cm = kiosk_cm and users = "[]"
             and now = "''2024-05-01T10:00:00''"]
  by (simp add: kiosk_paths)

text \<open>
  The claim as the specification states it fails: on the disk that cannot be
  written, caching the empty roster and reading the roster back returns the user
  cached before.
\<close>

theorem roster_round_trip_counterexample:
  "getCachedUsers kiosk_cm (fst (cacheUsers kiosk_cm ''2024-05-01T09:00:00'' readonly_disk [])) =
     [VMap [(''id'', VString ''u1''), (''name'', VString ''Alice'')]]"
  by (simp add: kiosk_defs getCachedUsers_def loadFromFile_def cacheUsers_def saveToFile_def
        qmap_value_def)

section \<open>RecognitionClient\<close>

text \<open>
  Claim C7, as amended.  A response whose body is a JSON object is parsed field
  by field into the result map of \<^verbatim>\<open>parseRecognizeResponse\<close>, and the slot delivers
  of it what its two signals carry.  With \<^verbatim>\<open>matched\<close> true it emits
  \<^verbatim>\<open>faceRecognized\<close> with exactly the \<^verbatim>\<open>user_id\<close> and the \<^verbatim>\<open>name\<close> of the response;
  \<^verbatim>\<open>distance\<close> and \<^verbatim>\<open>threshold\<close> stay in the result map.  With \<^verbatim>\<open>matched\<close> false,
  absent or no boolean it emits \<^verbatim>\<open>faceRecognitionFailed\<close>, the signal of every
  failure.
\<close>

theorem recognize_result_mapping:
  "parseRecognizeResponse (Json_Text (JObject obj)) =
     [(''success'', VBool True),
      (''matched'', VBool (qjson_toBool (qjson_value obj ''matched''))),
      (''user_id'', VString (qjson_toString (qjson_value obj ''user_id''))),
      (''name'', VString (qjson_toString (qjson_value obj ''name''))),
      (''distance'', VDouble (qjson_toDouble (qjson_value obj ''distance''))),
      (''threshold'', VDouble (qjson_toDouble (qjson_value obj ''threshold'')))] \<and>
   onRecognizeReplyFinished qt (Some \<lparr>error = NoError, readAll = Json_Text (JObject obj)\<rparr>) =
     (if qjson_toBool (qjson_value obj ''matched'')
      then [faceRecognized (qjson_toString (qjson_value obj ''user_id''))
                           (qjson_toString (qjson_value obj ''name''))]
      else [faceRecognitionFailed])"
  by (simp add: parseRecognizeResponse_def qmap_value_def)

theorem recognize_result_mapping_witness:
  "parseRecognizeResponse (Json_Text (JObject alice_response)) =
     [(''success'', VBool True), (''matched'', VBool True), (''user_id'', VString ''u1''),
      (''name'', VString ''Alice''), (''distance'', VDouble 0.3), (''threshold'', VDouble 0.5)] \<and>
   onRecognizeReplyFinished kiosk_qt
     (Some \<lparr>error = NoError, readAll = Json_Text (JObject alice_response)\<rparr>) =
     [faceRecognized ''u1'' ''Alice''] \<and>
   onRecognizeReplyFinished kiosk_qt
     (Some \<lparr>error = NoError, readAll = Json_Text (JObject [(''matched'', JBool False)])\<rparr>) =
     [faceRecognitionFailed]"
proof -
  have alice: "qjson_toBool (qjson_value alice_response ''matched'')"
              "qjson_toString (qjson_value alice_response ''user_id'') = ''u1''"
              "qjson_toString (qjson_value alice_response ''name'') = ''Alice''"
              "qjson_toDouble (qjson_value alice_response ''distance'') = 0.3"
              "qjson_toDouble (qjson_value alice_response ''threshold'') = 0.5"
    by (simp_all add: alice_response_def qjson_value_def)
  have nobody: "\<not> qjson_toBool (qjson_value [(''matched'', JBool False)] ''matched'')"
    by (simp add: qjson_value_def)
  from recognize_result_mapping [where obj = alice_response and qt = kiosk_qt]
       recognize_result_mapping [where obj = "[(''matched'', JBool False)]" and qt = kiosk_qt]
  show ?thesis
    by (simp only: alice nobody if_True if_False simp_thms)
qed

text \<open>
  The claim as the specification states it fails.  The response that says
  \<^verbatim>\<open>matched\<close> false has the outcome of a reply that failed on the network, and
  the response for Alice is delivered as her id and name, without the distance
  and the threshold.
\<close>

theorem recognize_no_match_counterexample:
  "onRecognizeReplyFinished kiosk_qt
     (Some \<lparr>error = NoError, readAll = Json_Text (JObject [(''matched'', JBool False)])\<rparr>) =
   onRecognizeReplyFinished kiosk_qt (Some \<lparr>error = HostNotFoundError, readAll = Empty_Bytes\<rparr>) \<and>
   onRecognizeReplyFinished kiosk_qt
     (Some \<lparr>error = NoError, readAll = Json_Text (JObject alice_response)\<rparr>) =
     [faceRecognized ''u1'' ''Alice'']"
  by (simp add: parseRecognizeResponse_def qmap_value_def qjson_value_def alice_response_def)

text \<open>
  Claim C8, as amended.  The slot tells a match from everything else and nothing
  more: a reply with a network error (a transport failure or an HTTP failure
  alike), a reply whose body is no JSON document and a reply that says
  \<^verbatim>\<open>matched\<close> false all emit the one signal \<^verbatim>\<open>faceRecognitionFailed\<close>, which has no
  argument.  Only the parsed result tells a malformed body, which it marks as
  failed with the error text, from a response.
\<close>

theorem recognize_failures_share_one_signal:
  "(error reply \<noteq> NoError \<longrightarrow>
      onRecognizeReplyFinished qt (Some reply) = [faceRecognitionFailed]) \<and>
   (error reply = NoError \<and> fromJson (readAll reply) = None \<longrightarrow>
      onRecognizeReplyFinished qt (Some reply) = [faceRecognitionFailed] \<and>
      parseRecognizeResponse (readAll reply) =
        [(''success'', VBool False), (''error'', VString ''Invalid JSON response'')]) \<and>
   (error reply = NoError \<and> readAll reply = Json_Text (JObject obj) \<and>
    \<not> qjson_toBool (qjson_value obj ''matched'') \<longrightarrow>
      onRecognizeReplyFinished qt (Some reply) = [faceRecognitionFailed])"
  by (simp add: parseRecognizeResponse_def qmap_value_def)

theorem recognize_failures_share_one_signal_witness:
  "onRecognizeReplyFinished kiosk_qt (Some \<lparr>error = TimeoutError, readAll = Empty_Bytes\<rparr>) =
     [faceRecognitionFailed] \<and>
   parseRecognizeResponse Empty_Bytes =
     [(''success'', VBool False), (''error'', VString ''Invalid JSON response'')] \<and>
   onRecognizeReplyFinished kiosk_qt
     (Some \<lparr>error = NoError, readAll = Json_Text (JObject [(''matched'', JBool False)])\<rparr>) =
     [faceRecognitionFailed]"
  using recognize_failures_share_one_signal
          [where reply = "\<lparr>error = TimeoutError, readAll = Empty_Bytes\<rparr>"
             and qt = kiosk_qt and obj = "[]"]
        recognize_failures_share_one_signal
          [where reply = "\<lparr>error = NoError, readAll = Empty_Bytes\<rparr>"
             and qt = kiosk_qt and obj = "[]"]
        recognize_failures_share_one_signal
          [where reply = "\<lparr>error = NoError,
                            readAll = Json_Text (JObject [(''matched'', JBool False)])\<rparr>"
             and qt = kiosk_qt and obj = "[(''matched'', JBool False)]"]
  by (simp add: qjson_value_def)

text \<open>
  The claim as the specification states it fails: a refused connection, an HTTP
  500, a malformed body and a well-formed response with \<^verbatim>\<open>matched\<close> false have the
  same outcome.
\<close>

theorem recognize_errors_counterexample:
  "onRecognizeReplyFinished kiosk_qt (Some \<lparr>error = ConnectionRefusedError, readAll = Empty_Bytes\<rparr>) =
     [faceRecognitionFailed] \<and>
   onRecognizeReplyFinished kiosk_qt (Some \<lparr>error = InternalServerError, readAll = Empty_Bytes\<rparr>) =
     [faceRecognitionFailed] \<and>
   onRecognizeReplyFinished kiosk_qt (Some \<lparr>error = NoError, readAll = Malformed_Bytes\<rparr>) =
     [faceRecognitionFailed] \<and>
   onRecognizeReplyFinished kiosk_qt
       (Some \<lparr>error = NoError, readAll = Json_Text (JObject [(''matched'', JBool False)])\<rparr>) =
     [faceRecognitionFailed]"
  by (simp add: parseRecognizeResponse_def qmap_value_def qjson_value_def)

section \<open>CaptureController\<close>

text \<open>
  Claim C9.  In every state the object reaches, \<^verbatim>\<open>startCamera\<close> on a running camera
  changes nothing, emits nothing and returns \<open>true\<close>.  When no camera was found,
  \<^verbatim>\<open>startCamera\<close> returns \<open>false\<close> with the error \<^verbatim>\<open>Camera not available\<close> and the
  camera is not running; when the device list is empty at the call, it returns
  \<open>false\<close> with an error and the state is unchanged.
\<close>

theorem startCamera_idempotent_or_unavailable:
  assumes "camera_inv s"
  shows "(m_cameraRunning s \<longrightarrow> startCamera env s = (s, [], True)) \<and>
         (\<not> m_cameraAvailable s \<longrightarrow>
            startCamera env s = (s, [cameraError ''Camera not available''], False) \<and>
            \<not> m_cameraRunning s) \<and>
         (\<not> m_cameraRunning s \<and> videoInputs env = [] \<longrightarrow>
            (\<exists>msg. startCamera env s = (s, [cameraError msg], False)))"
  using assms
  by (auto simp: camera_inv_def startCamera_def split: option.splits prod.splits nat.splits)

theorem startCamera_idempotent_or_unavailable_witness:
  "m_cameraRunning running_camera \<and>
   startCamera one_camera running_camera = (running_camera, [], True) \<and>
   startCamera no_camera (CameraManager []) =
     (CameraManager [], [cameraError ''Camera not available''], False)"
proof -
  have inv1: "camera_inv running_camera"
    unfolding running_camera_def by (intro camera_inv_startCamera camera_inv_init)
  have inv2: "camera_inv (CameraManager [])"
    by (rule camera_inv_init)
  have run: "m_cameraRunning running_camera"
    by (simp add: running_camera_eq)
  have off: "\<not> m_cameraAvailable (CameraManager [])"
    by (simp add: CameraManager_def)
  from startCamera_idempotent_or_unavailable [OF inv1, where env = one_camera]
       startCamera_idempotent_or_unavailable [OF inv2, where env = no_camera] run off
  show ?thesis by blast
qed

end
